theory Spec2Isabelle
  imports Main
begin

section \<open>Values, objects and the execution state\<close>

text \<open>
  The worker's \<open>env\<close> is a \<open>Record<string, unknown>\<close>. Its values are strings or
  non-strings; a binding (KV, D1, ...), a function and any other object is a reference.
  The primitives \<open>undefined\<close>, \<open>null\<close> and booleans are kept so that both truthy and
  falsy non-strings exist.
\<close>

datatype jsval = JUndefined | JNull | JBool bool | JStr string | JObj nat

datatype exn = Error string

text \<open>
  An object has its own properties, in the order \<open>Object.entries\<close> lists them, and a
  prototype (an object or \<open>null\<close>). Properties are data properties that can be written;
  the one accessor is \<open>__proto__\<close> of \<open>Object.prototype\<close>.
\<close>

record jsobject =
  own :: "(string \<times> jsval) list"
  proto :: jsval

text \<open>
  The state the code runs in: the objects by reference, the next unused reference, the
  store that each of the two \<open>AsyncLocalStorage\<close> instances has bound for the running
  call chain, the console, and the strings given to \<open>dotenvx.parse\<close> so far.
\<close>

record js_state =
  heap :: "nat \<Rightarrow> jsobject"
  next_ref :: nat
  envStore :: "nat option"
  secretsStore :: "nat option"
  console :: "string list"
  parseCalls :: "string list"

text \<open>A computation: it may throw, and it leaves a state either way.\<close>

type_synonym 'a comp = "js_state \<Rightarrow> (exn + 'a) \<times> js_state"

text \<open>\<open>Object.prototype\<close> is the object at reference 0.\<close>

definition Object_prototype :: nat where
  "Object_prototype = 0"

text \<open>
  \<open>obj[key]\<close>, read: the own property if there is one, else the prototype's, and so on
  up the chain; at \<open>Object.prototype\<close> the name \<open>__proto__\<close> is the getter, which gives
  the prototype of the object the read started at. A chain has no cycle (the engine
  refuses one), so it is no longer than the number of objects: the walk takes at most
  \<open>next_ref\<close> steps.
\<close>

fun js_lookup :: "nat \<Rightarrow> (nat \<Rightarrow> jsobject) \<Rightarrow> nat \<Rightarrow> nat \<Rightarrow> string \<Rightarrow> jsval" where
  "js_lookup 0 h receiver cur key = JUndefined"
| "js_lookup (Suc fuel) h receiver cur key =
     (case map_of (own (h cur)) key of
        Some v \<Rightarrow> v
      | None \<Rightarrow>
          if cur = Object_prototype \<and> key = ''__proto__'' then proto (h receiver)
          else (case proto (h cur) of
                  JObj p \<Rightarrow> js_lookup fuel h receiver p key
                | _ \<Rightarrow> JUndefined))"

definition js_read :: "js_state \<Rightarrow> nat \<Rightarrow> string \<Rightarrow> jsval" where
  "js_read st r key = js_lookup (next_ref st) (heap st) r r key"

text \<open>
  \<open>obj.__proto__ = v\<close> runs the setter of \<open>Object.prototype\<close> when the chain of \<open>obj\<close>
  reaches \<open>Object.prototype\<close> with no data property \<open>__proto__\<close> on the way.
\<close>

fun proto_setter_found :: "nat \<Rightarrow> (nat \<Rightarrow> jsobject) \<Rightarrow> nat \<Rightarrow> bool" where
  "proto_setter_found 0 h cur = False"
| "proto_setter_found (Suc fuel) h cur =
     (case map_of (own (h cur)) ''__proto__'' of
        Some v \<Rightarrow> False
      | None \<Rightarrow>
          if cur = Object_prototype then True
          else (case proto (h cur) of
                  JObj p \<Rightarrow> proto_setter_found fuel h p
                | _ \<Rightarrow> False))"

fun put_own :: "string \<Rightarrow> jsval \<Rightarrow> (string \<times> jsval) list \<Rightarrow> (string \<times> jsval) list" where
  "put_own key v [] = [(key, v)]"
| "put_own key v ((k, w) # ps) = (if k = key then (k, v) # ps else (k, w) # put_own key v ps)"

text \<open>
  \<open>obj[key] = v\<close> on an ordinary object that the code has made: the setter takes an
  object or \<open>null\<close> as the new prototype and ignores any other value; every other
  assignment writes the own property. (The object is new, so no chain contains it and
  the setter's check for a cycle passes.)
\<close>

definition js_assign :: "nat \<Rightarrow> string \<Rightarrow> jsval \<Rightarrow> js_state \<Rightarrow> js_state" where
  "js_assign r key v st =
     (if key = ''__proto__'' \<and> proto_setter_found (next_ref st) (heap st) r then
        (case v of
           JObj p \<Rightarrow> st\<lparr>heap := (heap st)(r := (heap st r)\<lparr>proto := v\<rparr>)\<rparr>
         | JNull \<Rightarrow> st\<lparr>heap := (heap st)(r := (heap st r)\<lparr>proto := v\<rparr>)\<rparr>
         | _ \<Rightarrow> st)
      else st\<lparr>heap := (heap st)(r := (heap st r)\<lparr>own := put_own key v (own (heap st r))\<rparr>)\<rparr>)"

text \<open>\<open>{}\<close>: a new object with no own property and \<open>Object.prototype\<close> as prototype.\<close>

definition new_object :: "js_state \<Rightarrow> nat \<times> js_state" where
  "new_object st =
     (next_ref st,
      st\<lparr>heap := (heap st)(next_ref st := \<lparr>own = [], proto = JObj Object_prototype\<rparr>),
         next_ref := Suc (next_ref st)\<rparr>)"

fun truthy :: "jsval \<Rightarrow> bool" where
  "truthy JUndefined = False"
| "truthy JNull = False"
| "truthy (JBool b) = b"
| "truthy (JStr s) = (s \<noteq> [])"
| "truthy (JObj r) = True"

fun is_string :: "jsval \<Rightarrow> bool" where
  "is_string (JStr s) = True"
| "is_string v = False"

definition startsWith :: "string \<Rightarrow> string \<Rightarrow> bool" where
  "startsWith s p = (take (length p) s = p)"

text \<open>\<open>a ?? b\<close>\<close>

definition nullish_coalesce :: "jsval \<Rightarrow> jsval \<Rightarrow> jsval" where
  "nullish_coalesce a b = (case a of JUndefined \<Rightarrow> b | JNull \<Rightarrow> b | _ \<Rightarrow> a)"

text \<open>
  \<open>dotenvx.parse(envString, { privateKey, publicKey })\<close> is the external library: it
  throws or returns an object of its own making. The code does one thing with that
  object, \<open>parsed[key]\<close>, so the result is given as this read: what the object yields for
  a name, own and inherited members alike. The keys are whatever the env holds under
  the reserved names (the code casts without checking).
\<close>

type_synonym primitive = "string \<Rightarrow> jsval \<Rightarrow> jsval \<Rightarrow> exn + (string \<Rightarrow> jsval)"

section \<open>secrets.ts\<close>

subsection \<open>decrypt\<close>

text \<open>The declared return type is \<open>string\<close>; what is returned is \<open>parsed[key] ?? value\<close>.\<close>

definition decrypt :: "primitive \<Rightarrow> string \<Rightarrow> string \<Rightarrow> jsval \<Rightarrow> jsval \<Rightarrow> jsval comp" where
  "decrypt P key v privateKey publicKey st =
     (let envString = key @ ''='' @ [CHR 0x22] @ v @ [CHR 0x22];
          st' = st\<lparr>parseCalls := parseCalls st @ [envString]\<rparr>
      in case P envString privateKey publicKey of
           Inl e \<Rightarrow> (Inl e, st')
         | Inr parsed \<Rightarrow> (Inr (nullish_coalesce (parsed key) (JStr v)), st'))"

subsection \<open>withSecrets\<close>

text \<open>One turn of the \<open>for\<close> loop: the \<open>try\<close>/\<open>catch\<close> is the case on what \<open>decrypt\<close> gives.\<close>

definition withSecrets_body ::
  "primitive \<Rightarrow> jsval \<Rightarrow> jsval \<Rightarrow> nat \<Rightarrow> string \<Rightarrow> jsval \<Rightarrow> unit comp" where
  "withSecrets_body P privateKey publicKey processedEnv key v st =
     (case v of
        JStr s \<Rightarrow>
          if startsWith s ''encrypted:'' \<and> truthy privateKey then
            (case decrypt P key s privateKey publicKey st of
               (Inr plain, st') \<Rightarrow> (Inr (), js_assign processedEnv key plain st')
             | (Inl err, st') \<Rightarrow>
                 (Inr (),
                  js_assign processedEnv key v
                    (st'\<lparr>console := console st' @ [''[secrets] Failed to decrypt '' @ key @ '':'']\<rparr>)))
          else (Inr (), js_assign processedEnv key v st)
      | _ \<Rightarrow> (Inr (), js_assign processedEnv key v st))"

fun withSecrets_loop ::
  "primitive \<Rightarrow> jsval \<Rightarrow> jsval \<Rightarrow> nat \<Rightarrow> (string \<times> jsval) list \<Rightarrow> unit comp" where
  "withSecrets_loop P privateKey publicKey processedEnv [] st = (Inr (), st)"
| "withSecrets_loop P privateKey publicKey processedEnv ((key, v) # rest) st =
     (case withSecrets_body P privateKey publicKey processedEnv key v st of
        (Inl e, st') \<Rightarrow> (Inl e, st')
      | (Inr u, st') \<Rightarrow> withSecrets_loop P privateKey publicKey processedEnv rest st')"

text \<open>
  \<open>envStore.run(store, callback)\<close>: the store object is bound for the callback and what
  the callback calls; when the callback has returned or thrown, the binding that was
  there before is back.
\<close>

definition envStore_run :: "nat \<Rightarrow> 'r comp \<Rightarrow> 'r comp" where
  "envStore_run store callback st =
     (let (res, st') = callback (st\<lparr>envStore := Some store\<rparr>)
      in (res, st'\<lparr>envStore := envStore st\<rparr>))"

text \<open>\<open>env\<close> is the reference of the env object; \<open>Object.entries(env)\<close> is its own properties.\<close>

definition withSecrets :: "primitive \<Rightarrow> nat \<Rightarrow> 'r comp \<Rightarrow> 'r comp" where
  "withSecrets P env handler st =
     (let privateKey = js_read st env ''DOTENV_PRIVATE_KEY'';
          publicKey = js_read st env ''DOTENV_PUBLIC_KEY'';
          (processedEnv, st0) = new_object st
      in case withSecrets_loop P privateKey publicKey processedEnv (own (heap st env)) st0 of
           (Inl e, st1) \<Rightarrow> (Inl e, st1)
         | (Inr u, st1) \<Rightarrow> envStore_run processedEnv handler st1)"

subsection \<open>The accessors\<close>

definition outside_context :: "string \<Rightarrow> exn" where
  "outside_context accessor =
     Error (''[secrets] '' @ accessor @ ''() called outside of withSecrets() context'')"

definition getSecret :: "js_state \<Rightarrow> string \<Rightarrow> exn + string option" where
  "getSecret st key =
     (case envStore st of
        None \<Rightarrow> Inl (outside_context ''getSecret'')
      | Some r \<Rightarrow> (case js_read st r key of JStr s \<Rightarrow> Inr (Some s) | _ \<Rightarrow> Inr None))"

definition requireSecret :: "js_state \<Rightarrow> string \<Rightarrow> exn + string" where
  "requireSecret st key =
     (case getSecret st key of
        Inl e \<Rightarrow> Inl e
      | Inr None \<Rightarrow> Inl (Error (''[secrets] Required secret '' @ [CHR 0x22] @ key @ [CHR 0x22]
                                  @ '' not found''))
      | Inr (Some s) \<Rightarrow> Inr s)"

definition getBinding :: "js_state \<Rightarrow> string \<Rightarrow> exn + jsval" where
  "getBinding st key =
     (case envStore st of
        None \<Rightarrow> Inl (outside_context ''getBinding'')
      | Some r \<Rightarrow> Inr (js_read st r key))"

text \<open>\<open>getEnv\<close> returns \<open>env as T\<close>: the reference that \<open>getStore()\<close> gave.\<close>

definition getEnv :: "js_state \<Rightarrow> exn + nat" where
  "getEnv st =
     (case envStore st of
        None \<Rightarrow> Inl (outside_context ''getEnv'')
      | Some r \<Rightarrow> Inr r)"

section \<open>The earlier secrets module (strings only)\<close>

text \<open>
  This variant keeps its own \<open>secretsStore\<close>. Its \<open>getSecret\<close> returns \<open>secrets[key]\<close>
  and its \<open>getAllSecrets\<close> returns \<open>{ ...secrets }\<close>: a new object with \<open>Object.prototype\<close>
  as prototype, on which the spread defines the own properties of \<open>secrets\<close>.
\<close>

definition getSecret_strings :: "js_state \<Rightarrow> string \<Rightarrow> exn + jsval" where
  "getSecret_strings st key =
     (case secretsStore st of
        None \<Rightarrow> Inl (Error (''[secrets] getSecret() called outside of withSecrets() context. ''
                             @ ''Wrap your handler with withSecrets(env, () => ...)''))
      | Some r \<Rightarrow> Inr (js_read st r key))"

definition getAllSecrets :: "nat comp" where
  "getAllSecrets st =
     (case secretsStore st of
        None \<Rightarrow> (Inl (outside_context ''getAllSecrets''), st)
      | Some r \<Rightarrow>
          (let (copy, st') = new_object st
           in (Inr copy,
               st'\<lparr>heap := (heap st')(copy := (heap st' copy)\<lparr>own := own (heap st r)\<rparr>)\<rparr>)))"

section \<open>dotenvx-decrypt.ts\<close>

definition decryptValue :: "primitive \<Rightarrow> string \<Rightarrow> string \<Rightarrow> jsval \<Rightarrow> jsval \<Rightarrow> jsval comp" where
  "decryptValue P key encryptedValue privateKey publicKey st =
     (let envString = key @ ''='' @ [CHR 0x22] @ encryptedValue @ [CHR 0x22];
          st' = st\<lparr>parseCalls := parseCalls st @ [envString]\<rparr>
      in case P envString privateKey publicKey of
           Inl e \<Rightarrow> (Inl e, st')
         | Inr parsed \<Rightarrow> (Inr (nullish_coalesce (parsed key) (JStr encryptedValue)), st'))"

definition isEncrypted :: "jsval \<Rightarrow> bool" where
  "isEncrypted v = (case v of JStr s \<Rightarrow> startsWith s ''encrypted:'' | _ \<Rightarrow> False)"

definition decryptEnv_body ::
  "primitive \<Rightarrow> jsval \<Rightarrow> jsval \<Rightarrow> nat \<Rightarrow> string \<Rightarrow> jsval \<Rightarrow> unit comp" where
  "decryptEnv_body P privateKey publicKey decrypted key v st =
     (case v of
        JStr s \<Rightarrow>
          if isEncrypted v then
            (case decryptValue P key s privateKey
                    (if is_string publicKey then publicKey else JUndefined) st of
               (Inr plain, st') \<Rightarrow> (Inr (), js_assign decrypted key plain st')
             | (Inl err, st') \<Rightarrow>
                 (Inr (),
                  js_assign decrypted key v
                    (st'\<lparr>console := console st' @ [''[dotenvx] Failed to decrypt '' @ key @ '':'']\<rparr>)))
          else (Inr (), js_assign decrypted key v st)
      | _ \<Rightarrow> (Inr (), st))"

fun decryptEnv_loop ::
  "primitive \<Rightarrow> jsval \<Rightarrow> jsval \<Rightarrow> nat \<Rightarrow> (string \<times> jsval) list \<Rightarrow> unit comp" where
  "decryptEnv_loop P privateKey publicKey decrypted [] st = (Inr (), st)"
| "decryptEnv_loop P privateKey publicKey decrypted ((key, v) # rest) st =
     (case decryptEnv_body P privateKey publicKey decrypted key v st of
        (Inl e, st') \<Rightarrow> (Inl e, st')
      | (Inr u, st') \<Rightarrow> decryptEnv_loop P privateKey publicKey decrypted rest st')"

text \<open>The result is a reference: the env itself, or the new object \<open>decrypted\<close>.\<close>

definition decryptEnv :: "primitive \<Rightarrow> nat \<Rightarrow> nat comp" where
  "decryptEnv P env st =
     (let privateKey = js_read st env ''DOTENV_PRIVATE_KEY'';
          publicKey = js_read st env ''DOTENV_PUBLIC_KEY''
      in if \<not> is_string privateKey then
           (Inr env,
            st\<lparr>console := console st @
               [''[dotenvx] DOTENV_PRIVATE_KEY not found - encrypted values will not be decrypted'']\<rparr>)
         else
           (let (decrypted, st0) = new_object st
            in case decryptEnv_loop P privateKey publicKey decrypted (own (heap st env)) st0 of
                 (Inl e, st1) \<Rightarrow> (Inl e, st1)
               | (Inr u, st1) \<Rightarrow> (Inr decrypted, st1)))"

text \<open>
  The proxy closes over the env, the two keys and a cache (a \<open>Map\<close>). Its \<open>get\<close> trap gives
  back the value and may have filled the cache.
\<close>

record decrypt_proxy =
  px_target :: nat
  px_cache :: "string \<rightharpoonup> jsval"
  px_privateKey :: jsval
  px_publicKey :: jsval

definition createDecryptProxy :: "js_state \<Rightarrow> nat \<Rightarrow> decrypt_proxy" where
  "createDecryptProxy st env =
     \<lparr>px_target = env, px_cache = Map.empty,
      px_privateKey = js_read st env ''DOTENV_PRIVATE_KEY'',
      px_publicKey = js_read st env ''DOTENV_PUBLIC_KEY''\<rparr>"

definition proxy_get ::
  "primitive \<Rightarrow> decrypt_proxy \<Rightarrow> string \<Rightarrow> js_state \<Rightarrow> (exn + jsval) \<times> decrypt_proxy \<times> js_state" where
  "proxy_get P px prop st =
     (case px_cache px prop of
        Some cached \<Rightarrow> (Inr cached, px, st)
      | None \<Rightarrow>
          (let v = js_read st (px_target px) prop
           in case v of
                JStr s \<Rightarrow>
                  if isEncrypted v then
                    (case decryptValue P prop s (px_privateKey px) (px_publicKey px) st of
                       (Inr decrypted, st') \<Rightarrow>
                         (Inr decrypted, px\<lparr>px_cache := (px_cache px)(prop \<mapsto> decrypted)\<rparr>, st')
                     | (Inl err, st') \<Rightarrow> (Inr v, px, st'))
                  else (Inr v, px, st)
              | _ \<Rightarrow> (Inr v, px, st)))"

text \<open>A caller that reads the properties \<open>props\<close> of a proxy one after the other.\<close>

fun proxy_reads ::
  "primitive \<Rightarrow> decrypt_proxy \<Rightarrow> string list \<Rightarrow> js_state \<Rightarrow> decrypt_proxy \<times> js_state" where
  "proxy_reads P px [] st = (px, st)"
| "proxy_reads P px (prop # props) st =
     (case proxy_get P px prop st of (res, px', st') \<Rightarrow> proxy_reads P px' props st')"

text \<open>
  The two ways to read one name: \<open>decryptEnv(env)[name]\<close>, and \<open>proxy[name]\<close> on a
  proxy from \<open>createDecryptProxy(env)\<close> whose properties \<open>earlier\<close> have been read before.
\<close>

definition eager_lookup :: "primitive \<Rightarrow> nat \<Rightarrow> string \<Rightarrow> js_state \<Rightarrow> exn + jsval" where
  "eager_lookup P env name st =
     (case decryptEnv P env st of
        (Inl e, st') \<Rightarrow> Inl e
      | (Inr decrypted, st') \<Rightarrow> Inr (js_read st' decrypted name))"

definition lazy_lookup ::
  "primitive \<Rightarrow> nat \<Rightarrow> string list \<Rightarrow> string \<Rightarrow> js_state \<Rightarrow> exn + jsval" where
  "lazy_lookup P env earlier name st =
     (case proxy_reads P (createDecryptProxy st env) earlier st of
        (px, st') \<Rightarrow> fst (proxy_get P px name st'))"

section \<open>Concrete inputs\<close>

text \<open>
  The members of \<open>Object.prototype\<close>: functions, each an object of its own (of which
  nothing is read here).
\<close>

definition Object_prototype_members :: "(string \<times> jsval) list" where
  "Object_prototype_members =
     [(''constructor'', JObj 1), (''__defineGetter__'', JObj 2), (''__defineSetter__'', JObj 3),
      (''hasOwnProperty'', JObj 4), (''__lookupGetter__'', JObj 5), (''__lookupSetter__'', JObj 6),
      (''isPrototypeOf'', JObj 7), (''propertyIsEnumerable'', JObj 8), (''toString'', JObj 9),
      (''valueOf'', JObj 10), (''toLocaleString'', JObj 11)]"

text \<open>What an object literal with the given string entries yields for a name.\<close>

definition plain_object :: "(string \<times> string) list \<Rightarrow> string \<Rightarrow> jsval" where
  "plain_object entries key =
     (case map_of entries key of
        Some s \<Rightarrow> JStr s
      | None \<Rightarrow>
          if key = ''__proto__'' then JObj Object_prototype
          else (case map_of Object_prototype_members key of Some f \<Rightarrow> f | None \<Rightarrow> JUndefined))"

text \<open>
  A stand-in for the library: with the key \<open>k1\<close> it recovers \<open>plaintext1\<close> from
  \<open>MY_SECRET="encrypted:abc"\<close>, it throws on an assignment of \<open>encrypted:bad\<close> to \<open>BAD\<close> or
  to \<open>__proto__\<close>, and for any other assignment its result is the empty object \<open>{}\<close>.
\<close>

definition demo_parse :: primitive where
  "demo_parse envString privateKey publicKey =
     (if envString = ''MY_SECRET='' @ [CHR 0x22] @ ''encrypted:abc'' @ [CHR 0x22]
         \<and> privateKey = JStr ''k1''
      then Inr (plain_object [(''MY_SECRET'', ''plaintext1'')])
      else if envString = ''BAD='' @ [CHR 0x22] @ ''encrypted:bad'' @ [CHR 0x22]
              \<or> envString = ''__proto__='' @ [CHR 0x22] @ ''encrypted:bad'' @ [CHR 0x22]
      then Inl (Error ''decryption failed'')
      else Inr (plain_object []))"

text \<open>
  The objects of the examples, by reference: a binding; the env of the specification's
  scenario; four envs with an own property \<open>__proto__\<close>, as \<open>JSON.parse\<close> makes them
  (a plain string, \<open>false\<close>, a marked string without a private key, a marked string with
  one); an object with a property \<open>INJECTED\<close> and an env that has it under \<open>__proto__\<close>.
\<close>

definition DB_handle :: nat where
  "DB_handle = 20"

definition demo_env :: nat where
  "demo_env = 21"

definition proto_plain_env :: nat where
  "proto_plain_env = 23"

definition proto_false_env :: nat where
  "proto_false_env = 24"

definition proto_marked_env :: nat where
  "proto_marked_env = 25"

definition proto_bad_env :: nat where
  "proto_bad_env = 26"

definition injected_object :: nat where
  "injected_object = 27"

definition proto_object_env :: nat where
  "proto_object_env = 28"

definition init_heap :: "nat \<Rightarrow> jsobject" where
  "init_heap r =
     (if r = 0 then \<lparr>own = Object_prototype_members, proto = JNull\<rparr>
      else if r = 20 then \<lparr>own = [], proto = JObj 0\<rparr>
      else if r = 21 then
        \<lparr>own = [(''DOTENV_PRIVATE_KEY'', JStr ''k1''), (''MY_SECRET'', JStr ''encrypted:abc''),
                (''OTHER'', JStr ''plain''), (''DB'', JObj 20), (''BAD'', JStr ''encrypted:bad'')],
         proto = JObj 0\<rparr>
      else if r = 23 then
        \<lparr>own = [(''__proto__'', JStr ''plain''), (''A'', JStr ''a'')], proto = JObj 0\<rparr>
      else if r = 24 then
        \<lparr>own = [(''__proto__'', JBool False), (''DB'', JObj 20)], proto = JObj 0\<rparr>
      else if r = 25 then
        \<lparr>own = [(''__proto__'', JStr ''encrypted:abc'')], proto = JObj 0\<rparr>
      else if r = 26 then
        \<lparr>own = [(''DOTENV_PRIVATE_KEY'', JStr ''k1''), (''__proto__'', JStr ''encrypted:bad'')],
         proto = JObj 0\<rparr>
      else if r = 27 then \<lparr>own = [(''INJECTED'', JStr ''x'')], proto = JObj 0\<rparr>
      else if r = 28 then \<lparr>own = [(''__proto__'', JObj 27)], proto = JObj 0\<rparr>
      else \<lparr>own = [], proto = JNull\<rparr>)"

definition init_state :: js_state where
  "init_state =
     \<lparr>heap = init_heap, next_ref = 30, envStore = None, secretsStore = None,
      console = [], parseCalls = []\<rparr>"

text \<open>
  A handler that takes the env from \<open>getEnv()\<close>, assigns to its property \<open>OTHER\<close> and
  then reads \<open>OTHER\<close> with \<open>getSecret\<close>.
\<close>

definition assigning_handler :: "string option comp" where
  "assigning_handler st =
     (case getEnv st of
        Inl e \<Rightarrow> (Inl e, st)
      | Inr r \<Rightarrow> (let st' = js_assign r ''OTHER'' (JStr ''changed'') st
                  in (getSecret st' ''OTHER'', st')))"

text \<open>A handler that returns \<open>Object.keys(getEnv())\<close>.\<close>

definition keys_handler :: "string list comp" where
  "keys_handler st =
     (case getEnv st of
        Inl e \<Rightarrow> (Inl e, st)
      | Inr r \<Rightarrow> (Inr (map fst (own (heap st r))), st))"

section \<open>The bound on the walk up the prototype chain\<close>

text \<open>
  The bound on the walk is never the reason for a result: where every prototype is an
  older object than the object itself (as for the objects here, and for a new object
  whose prototype is set to a value of the env), a walk from an object below the bound
  gives the same for every larger bound.
\<close>

lemma js_lookup_enough_fuel:
  assumes "\<forall>r p. proto (h r) = JObj p \<longrightarrow> p < r"
  shows "cur < n \<Longrightarrow> cur < m \<Longrightarrow> js_lookup n h receiver cur key = js_lookup m h receiver cur key"
proof (induction n arbitrary: cur m)
  case 0
  then show ?case by simp
next
  case (Suc n)
  from Suc.prems(2) obtain m' where m: "m = Suc m'" by (cases m) auto
  show ?case
  proof (cases "proto (h cur)")
    case (JObj p)
    then have "p < cur" using assms by blast
    then have "p < n" and "p < m'" using Suc.prems m by auto
    then have "js_lookup n h receiver p key = js_lookup m' h receiver p key"
      by (rule Suc.IH)
    then show ?thesis using m JObj by (auto split: option.splits)
  qed (auto simp: m split: option.splits)
qed

lemma proto_setter_found_enough_fuel:
  assumes "\<forall>r p. proto (h r) = JObj p \<longrightarrow> p < r"
  shows "cur < n \<Longrightarrow> cur < m \<Longrightarrow> proto_setter_found n h cur = proto_setter_found m h cur"
proof (induction n arbitrary: cur m)
  case 0
  then show ?case by simp
next
  case (Suc n)
  from Suc.prems(2) obtain m' where m: "m = Suc m'" by (cases m) auto
  show ?case
  proof (cases "proto (h cur)")
    case (JObj p)
    then have "p < cur" using assms by blast
    then have "p < n" and "p < m'" using Suc.prems m by auto
    then have "proto_setter_found n h p = proto_setter_found m' h p"
      by (rule Suc.IH)
    then show ?thesis using m JObj by (auto split: option.splits)
  qed (auto simp: m split: option.splits)
qed

lemma init_heap_prototypes_older: "\<forall>r p. proto (init_heap r) = JObj p \<longrightarrow> p < r"
  by (simp add: init_heap_def)

section \<open>The loop of \<open>withSecrets\<close> at names other than \<open>__proto__\<close>\<close>

lemma map_of_put_own: "map_of (put_own key v ps) = (map_of ps)(key \<mapsto> v)"
  by (induction ps) (auto simp: fun_eq_iff)

lemma put_own_new: "key \<notin> fst ` set ps \<Longrightarrow> put_own key v ps = ps @ [(key, v)]"
  by (induction ps) auto

lemma js_assign_other_name:
  "key \<noteq> ''__proto__'' \<Longrightarrow>
   js_assign r key v st
     = st\<lparr>heap := (heap st)(r := (heap st r)\<lparr>own := put_own key v (own (heap st r))\<rparr>)\<rparr>"
  by (simp add: js_assign_def)

lemma decrypt_fst_state: "fst (decrypt P key v a b st) = fst (decrypt P key v a b st0)"
  by (simp add: decrypt_def Let_def split: sum.splits)

lemma decrypt_heap:
  "heap (snd (decrypt P key v a b st)) = heap st \<and> next_ref (snd (decrypt P key v a b st)) = next_ref st"
  by (simp add: decrypt_def Let_def split: sum.splits)

text \<open>
  One turn of the loop for a name other than \<open>__proto__\<close>: the own property is written,
  with the env's value or with what \<open>decrypt\<close> returned; nothing else of the objects
  changes.
\<close>

lemma withSecrets_body_other_name:
  assumes "key \<noteq> ''__proto__''"
  shows "\<exists>w st'. withSecrets_body P a b r key v st = (Inr (), st')
     \<and> heap st' = (heap st)(r := (heap st r)\<lparr>own := put_own key w (own (heap st r))\<rparr>)
     \<and> (w = v \<or> (\<exists>s. v = JStr s \<and> startsWith s ''encrypted:'' \<and> truthy a
                     \<and> fst (decrypt P key s a b st0) = Inr w))"
proof (cases "\<exists>s. v = JStr s \<and> startsWith s ''encrypted:'' \<and> truthy a")
  case False
  then have "withSecrets_body P a b r key v st = (Inr (), js_assign r key v st)"
    by (auto simp: withSecrets_body_def split: jsval.splits)
  then show ?thesis using assms by (auto simp: js_assign_other_name)
next
  case True
  then obtain s where s: "v = JStr s" "startsWith s ''encrypted:''" "truthy a" by blast
  obtain res st1 where d: "decrypt P key s a b st = (res, st1)" by (cases "decrypt P key s a b st")
  have h: "heap st1 = heap st" using decrypt_heap[of P key s a b st] d by simp
  have f: "fst (decrypt P key s a b st0) = res" using decrypt_fst_state[of P key s a b st0 st] d by simp
  show ?thesis
  proof (cases res)
    case (Inl err)
    define st2 where "st2 = js_assign r key v
        (st1\<lparr>console := console st1 @ [''[secrets] Failed to decrypt '' @ key @ '':'']\<rparr>)"
    have "withSecrets_body P a b r key v st = (Inr (), st2)"
      using s d Inl by (simp add: withSecrets_body_def st2_def)
    moreover have "heap st2 = (heap st)(r := (heap st r)\<lparr>own := put_own key v (own (heap st r))\<rparr>)"
      using assms h by (simp add: st2_def js_assign_other_name)
    ultimately show ?thesis by blast
  next
    case (Inr plain)
    define st2 where "st2 = js_assign r key plain st1"
    have "withSecrets_body P a b r key v st = (Inr (), st2)"
      using s d Inr by (simp add: withSecrets_body_def st2_def)
    moreover have "heap st2 = (heap st)(r := (heap st r)\<lparr>own := put_own key plain (own (heap st r))\<rparr>)"
      using assms h by (simp add: st2_def js_assign_other_name)
    ultimately show ?thesis using s f Inr by blast
  qed
qed

lemma withSecrets_loop_other_names:
  assumes "''__proto__'' \<notin> fst ` set entries" and "distinct (map fst entries)"
    and "fst ` set entries \<inter> fst ` set (own (heap st r)) = {}"
  shows "\<exists>st'. withSecrets_loop P a b r entries st = (Inr (), st')
     \<and> (\<forall>r'. r' \<noteq> r \<longrightarrow> heap st' r' = heap st r')
     \<and> proto (heap st' r) = proto (heap st r)
     \<and> map fst (own (heap st' r)) = map fst (own (heap st r)) @ map fst entries
     \<and> (\<forall>k. k \<notin> fst ` set entries \<longrightarrow> map_of (own (heap st' r)) k = map_of (own (heap st r)) k)
     \<and> (\<forall>k v. (k, v) \<in> set entries \<longrightarrow>
           map_of (own (heap st' r)) k = Some v
           \<or> (\<exists>s plain. v = JStr s \<and> startsWith s ''encrypted:'' \<and> truthy a
                 \<and> fst (decrypt P k s a b st0) = Inr plain
                 \<and> map_of (own (heap st' r)) k = Some plain))"
  using assms
proof (induction entries arbitrary: st)
  case Nil
  then show ?case by simp
next
  case (Cons kv rest)
  obtain key v where kv: "kv = (key, v)" by (cases kv)
  from Cons.prems kv have np: "key \<noteq> ''__proto__''" and nr: "''__proto__'' \<notin> fst ` set rest"
    and d: "distinct (map fst rest)" and nk: "key \<notin> fst ` set rest"
    and fresh: "key \<notin> fst ` set (own (heap st r))"
    and dis: "fst ` set rest \<inter> fst ` set (own (heap st r)) = {}"
    by auto
  from withSecrets_body_other_name[OF np, of P a b r v st st0]
  obtain w st1 where b: "withSecrets_body P a b r key v st = (Inr (), st1)"
    and h1: "heap st1 = (heap st)(r := (heap st r)\<lparr>own := put_own key w (own (heap st r))\<rparr>)"
    and w: "w = v \<or> (\<exists>s. v = JStr s \<and> startsWith s ''encrypted:'' \<and> truthy a
                     \<and> fst (decrypt P key s a b st0) = Inr w)"
    by blast
  have o1: "own (heap st1 r) = own (heap st r) @ [(key, w)]"
    using h1 fresh by (simp add: put_own_new)
  have dis1: "fst ` set rest \<inter> fst ` set (own (heap st1 r)) = {}"
    using dis nk o1 by auto
  from Cons.IH[OF nr d dis1]
  obtain st' where l: "withSecrets_loop P a b r rest st1 = (Inr (), st')"
    and oth: "\<forall>r'. r' \<noteq> r \<longrightarrow> heap st' r' = heap st1 r'"
    and pr: "proto (heap st' r) = proto (heap st1 r)"
    and names: "map fst (own (heap st' r)) = map fst (own (heap st1 r)) @ map fst rest"
    and keep: "\<forall>k. k \<notin> fst ` set rest \<longrightarrow> map_of (own (heap st' r)) k = map_of (own (heap st1 r)) k"
    and vals: "\<forall>k v. (k, v) \<in> set rest \<longrightarrow>
           map_of (own (heap st' r)) k = Some v
           \<or> (\<exists>s plain. v = JStr s \<and> startsWith s ''encrypted:'' \<and> truthy a
                 \<and> fst (decrypt P k s a b st0) = Inr plain
                 \<and> map_of (own (heap st' r)) k = Some plain)"
    by blast
  have r: "withSecrets_loop P a b r (kv # rest) st = (Inr (), st')"
    using kv b l by simp
  have m1: "map_of (own (heap st1 r)) = (map_of (own (heap st r)))(key \<mapsto> w)"
    using h1 by (simp add: map_of_put_own)
  have mk: "map_of (own (heap st' r)) key = Some w"
    using keep nk m1 by simp
  show ?case
  proof (intro exI conjI allI impI)
    show "withSecrets_loop P a b r (kv # rest) st = (Inr (), st')" by (rule r)
  next
    fix r' assume "r' \<noteq> r"
    then show "heap st' r' = heap st r'" using oth h1 by simp
  next
    show "proto (heap st' r) = proto (heap st r)" using pr h1 by simp
  next
    show "map fst (own (heap st' r)) = map fst (own (heap st r)) @ map fst (kv # rest)"
      using names o1 kv by simp
  next
    fix k assume "k \<notin> fst ` set (kv # rest)"
    then have "k \<notin> fst ` set rest" and "k \<noteq> key" using kv by auto
    then show "map_of (own (heap st' r)) k = map_of (own (heap st r)) k"
      using keep m1 by simp
  next
    fix k v' assume m: "(k, v') \<in> set (kv # rest)"
    show "map_of (own (heap st' r)) k = Some v'
           \<or> (\<exists>s plain. v' = JStr s \<and> startsWith s ''encrypted:'' \<and> truthy a
                 \<and> fst (decrypt P k s a b st0) = Inr plain
                 \<and> map_of (own (heap st' r)) k = Some plain)"
    proof (cases "(k, v') = (key, v)")
      case True
      then show ?thesis using mk w by auto
    next
      case False
      then have "(k, v') \<in> set rest" using m kv by auto
      then show ?thesis using vals by blast
    qed
  qed
qed

text \<open>
  For an env with no own property \<open>__proto__\<close>, the object that \<open>withSecrets\<close> binds for the
  handler is the new object (at reference \<open>next_ref st\<close>); its prototype is
  \<open>Object.prototype\<close>, its own names are those of the env, in order, and each holds the
  env's value or, for a marked string with a truthy private key, what \<open>decrypt\<close> returned.
\<close>

lemma withSecrets_keeps_other_names:
  assumes "''__proto__'' \<notin> fst ` set (own (heap st env))"
    and "distinct (map fst (own (heap st env)))"
  shows "\<exists>st1. withSecrets P env handler st = envStore_run (next_ref st) handler st1
     \<and> proto (heap st1 (next_ref st)) = JObj Object_prototype
     \<and> map fst (own (heap st1 (next_ref st))) = map fst (own (heap st env))
     \<and> (\<forall>k v. map_of (own (heap st env)) k = Some v \<longrightarrow>
           map_of (own (heap st1 (next_ref st))) k = Some v
           \<or> (\<exists>s plain. v = JStr s \<and> startsWith s ''encrypted:''
                 \<and> truthy (js_read st env ''DOTENV_PRIVATE_KEY'')
                 \<and> fst (decrypt P k s (js_read st env ''DOTENV_PRIVATE_KEY'')
                           (js_read st env ''DOTENV_PUBLIC_KEY'') st) = Inr plain
                 \<and> map_of (own (heap st1 (next_ref st))) k = Some plain))"
proof -
  let ?a = "js_read st env ''DOTENV_PRIVATE_KEY''" and ?b = "js_read st env ''DOTENV_PUBLIC_KEY''"
  let ?r = "next_ref st"
  define st0 where "st0 = snd (new_object st)"
  have n: "new_object st = (?r, st0)" by (simp add: st0_def new_object_def)
  have o0: "own (heap st0 ?r) = []" and p0: "proto (heap st0 ?r) = JObj Object_prototype"
    by (simp_all add: st0_def new_object_def)
  have dis: "fst ` set (own (heap st env)) \<inter> fst ` set (own (heap st0 ?r)) = {}"
    using o0 by simp
  from withSecrets_loop_other_names[OF assms dis, of P ?a ?b st]
  obtain st1 where l: "withSecrets_loop P ?a ?b ?r (own (heap st env)) st0 = (Inr (), st1)"
    and pr: "proto (heap st1 ?r) = proto (heap st0 ?r)"
    and names: "map fst (own (heap st1 ?r)) = map fst (own (heap st0 ?r)) @ map fst (own (heap st env))"
    and vals: "\<forall>k v. (k, v) \<in> set (own (heap st env)) \<longrightarrow>
           map_of (own (heap st1 ?r)) k = Some v
           \<or> (\<exists>s plain. v = JStr s \<and> startsWith s ''encrypted:'' \<and> truthy ?a
                 \<and> fst (decrypt P k s ?a ?b st) = Inr plain
                 \<and> map_of (own (heap st1 ?r)) k = Some plain)"
    by blast
  have w: "withSecrets P env handler st = envStore_run ?r handler st1"
    using n l by (simp add: withSecrets_def Let_def)
  have v: "\<forall>k v. map_of (own (heap st env)) k = Some v \<longrightarrow>
           map_of (own (heap st1 ?r)) k = Some v
           \<or> (\<exists>s plain. v = JStr s \<and> startsWith s ''encrypted:'' \<and> truthy ?a
                 \<and> fst (decrypt P k s ?a ?b st) = Inr plain
                 \<and> map_of (own (heap st1 ?r)) k = Some plain)"
    using vals by (blast dest: map_of_SomeD)
  show ?thesis using w pr p0 names o0 v by auto
qed

text \<open>
  With a falsy private key the loop gives nothing to \<open>dotenvx.parse\<close> and logs nothing,
  whatever the names of the env are.
\<close>

lemma js_assign_effects:
  "parseCalls (js_assign r key v st) = parseCalls st \<and> console (js_assign r key v st) = console st"
  by (simp add: js_assign_def split: jsval.splits)

lemma withSecrets_loop_no_key:
  assumes "\<not> truthy a"
  shows "parseCalls (snd (withSecrets_loop P a b r entries st)) = parseCalls st
       \<and> console (snd (withSecrets_loop P a b r entries st)) = console st
       \<and> fst (withSecrets_loop P a b r entries st) = Inr ()"
proof (induction entries arbitrary: st)
  case Nil
  then show ?case by simp
next
  case (Cons kv rest)
  obtain key v where kv: "kv = (key, v)" by (cases kv)
  have b: "withSecrets_body P a b r key v st = (Inr (), js_assign r key v st)"
    using assms by (simp add: withSecrets_body_def split: jsval.splits)
  show ?case using kv b Cons.IH[of "js_assign r key v st"] by (simp add: js_assign_effects)
qed

text \<open>\<open>decrypt\<close> and \<open>decryptValue\<close> return \<open>parsed[key] ?? value\<close>, whatever \<open>parsed[key]\<close> is.\<close>

lemma decrypt_returns_parsed_read:
  assumes "P (key @ ''='' @ [CHR 0x22] @ rawValue @ [CHR 0x22]) privateKey publicKey = Inr parsed"
  shows "fst (decrypt P key rawValue privateKey publicKey st)
           = Inr (nullish_coalesce (parsed key) (JStr rawValue))
       \<and> fst (decryptValue P key rawValue privateKey publicKey st)
           = Inr (nullish_coalesce (parsed key) (JStr rawValue))"
  using assms by (simp add: decrypt_def decryptValue_def Let_def)

text \<open>
  While a store is bound, \<open>getSecret\<close> returns what reading the bound object gives for the
  name (own or inherited) when that is a string, and \<open>requireSecret\<close> throws exactly when
  it is not.
\<close>

lemma getSecret_reads_bound_object:
  assumes "envStore st = Some r"
  shows "getSecret st key = Inr (case js_read st r key of JStr s \<Rightarrow> Some s | _ \<Rightarrow> None)
       \<and> requireSecret st key
           = (case js_read st r key of
                JStr s \<Rightarrow> Inr s
              | _ \<Rightarrow> Inl (Error (''[secrets] Required secret '' @ [CHR 0x22] @ key @ [CHR 0x22]
                                  @ '' not found'')))
       \<and> getBinding st key = Inr (js_read st r key)"
  using assms
  by (simp add: getSecret_def requireSecret_def getBinding_def split: jsval.splits)

text \<open>
  \<open>getEnv\<close> returns the bound reference, before and after an assignment through it;
  \<open>getAllSecrets\<close> returns a new object with the own properties of the bound one, and an
  assignment to the new object changes no other object.
\<close>

lemma getEnv_returns_bound_reference:
  assumes "envStore st = Some r"
  shows "getEnv st = Inr r \<and> getEnv (js_assign r key v st) = Inr r"
  using assms by (simp add: getEnv_def js_assign_def split: jsval.splits)

lemma getAllSecrets_returns_copy:
  assumes "secretsStore st = Some r"
  shows "\<exists>st'. getAllSecrets st = (Inr (next_ref st), st')
       \<and> own (heap st' (next_ref st)) = own (heap st r)
       \<and> (\<forall>r'. r' \<noteq> next_ref st \<longrightarrow> heap (js_assign (next_ref st) k v st') r' = heap st r')"
  using assms
  by (auto simp: getAllSecrets_def new_object_def js_assign_def Let_def split: jsval.splits)

section \<open>The accessors outside a context\<close>

lemma js_assign_envStore: "envStore (js_assign r key v st) = envStore st"
  by (simp add: js_assign_def split: jsval.splits)

lemma decrypt_envStore: "envStore (snd (decrypt P key v a b st)) = envStore st"
  by (simp add: decrypt_def Let_def split: sum.splits)

lemma withSecrets_body_total:
  "\<exists>st'. withSecrets_body P a b r key v st = (Inr (), st') \<and> envStore st' = envStore st"
proof (cases "\<exists>s. v = JStr s \<and> startsWith s ''encrypted:'' \<and> truthy a")
  case False
  then show ?thesis
    by (auto simp: withSecrets_body_def js_assign_envStore split: jsval.splits)
next
  case True
  then obtain s where s: "v = JStr s" "startsWith s ''encrypted:''" "truthy a" by blast
  obtain res st1 where d: "decrypt P key s a b st = (res, st1)" by (cases "decrypt P key s a b st")
  have e: "envStore st1 = envStore st" using decrypt_envStore[of P key s a b st] d by simp
  show ?thesis
  proof (cases res)
    case (Inl err)
    then show ?thesis using s d e by (simp add: withSecrets_body_def js_assign_envStore)
  next
    case (Inr plain)
    then show ?thesis using s d e by (simp add: withSecrets_body_def js_assign_envStore)
  qed
qed

lemma withSecrets_loop_total:
  "\<exists>st'. withSecrets_loop P a b r entries st = (Inr (), st') \<and> envStore st' = envStore st"
proof (induction entries arbitrary: st)
  case Nil
  then show ?case by simp
next
  case (Cons kv rest)
  obtain key v where kv: "kv = (key, v)" by (cases kv)
  from withSecrets_body_total[of P a b r key v st]
  obtain st1 where b: "withSecrets_body P a b r key v st = (Inr (), st1)"
    and e1: "envStore st1 = envStore st" by blast
  from Cons.IH[of st1] obtain st' where l: "withSecrets_loop P a b r rest st1 = (Inr (), st')"
    and e2: "envStore st' = envStore st1" by blast
  show ?case using kv b l e1 e2 by simp
qed

lemma withSecrets_restores_envStore:
  "envStore (snd (withSecrets P env handler st)) = envStore st"
proof -
  obtain r st0 where n: "new_object st = (r, st0)" by (cases "new_object st")
  have e0: "envStore st0 = envStore st" using n by (auto simp: new_object_def)
  from withSecrets_loop_total[of P "js_read st env ''DOTENV_PRIVATE_KEY''"
      "js_read st env ''DOTENV_PUBLIC_KEY''" r "own (heap st env)" st0]
  obtain st1 where l: "withSecrets_loop P (js_read st env ''DOTENV_PRIVATE_KEY'')
      (js_read st env ''DOTENV_PUBLIC_KEY'') r (own (heap st env)) st0 = (Inr (), st1)"
    and e: "envStore st1 = envStore st0"
    by blast
  have "envStore (snd (envStore_run r handler st1)) = envStore st1"
    by (simp add: envStore_run_def Let_def split: prod.splits)
  then show ?thesis using n l e e0 by (simp add: withSecrets_def Let_def)
qed

text \<open>
  C7, as amended. When no store is bound (before any \<open>withSecrets\<close>), and again in the state
  that \<open>withSecrets\<close> leaves when its handler has returned, each accessor throws the
  "called outside of withSecrets() context" error. The message names the accessor for
  \<open>getSecret\<close>, \<open>getBinding\<close> and \<open>getEnv\<close>; \<open>requireSecret\<close> calls \<open>getSecret\<close>, and the
  error it passes on names \<open>getSecret\<close>.
\<close>

theorem accessors_outside_context:
  assumes "envStore st = None"
  shows "\<forall>st' \<in> {st, snd (withSecrets P env handler st)}.
           getSecret st' key = Inl (outside_context ''getSecret'')
         \<and> requireSecret st' key = Inl (outside_context ''getSecret'')
         \<and> getBinding st' key = Inl (outside_context ''getBinding'')
         \<and> getEnv st' = Inl (outside_context ''getEnv'')"
proof -
  have "getSecret st' key = Inl (outside_context ''getSecret'')
         \<and> requireSecret st' key = Inl (outside_context ''getSecret'')
         \<and> getBinding st' key = Inl (outside_context ''getBinding'')
         \<and> getEnv st' = Inl (outside_context ''getEnv'')" if "envStore st' = None" for st'
    using that by (simp add: getSecret_def requireSecret_def getBinding_def getEnv_def)
  moreover have "envStore (snd (withSecrets P env handler st)) = None"
    using assms by (simp add: withSecrets_restores_envStore)
  ultimately show ?thesis using assms by blast
qed

theorem accessors_outside_context_witness:
  "envStore init_state = None
   \<and> getSecret init_state ''MY_SECRET''
       = Inl (Error ''[secrets] getSecret() called outside of withSecrets() context'')
   \<and> getBinding (snd (withSecrets demo_parse demo_env assigning_handler init_state)) ''DB''
       = Inl (Error ''[secrets] getBinding() called outside of withSecrets() context'')
   \<and> getEnv (snd (withSecrets demo_parse demo_env assigning_handler init_state))
       = Inl (Error ''[secrets] getEnv() called outside of withSecrets() context'')"
proof -
  have h: "envStore init_state = None" by (simp add: init_state_def)
  show ?thesis
    using accessors_outside_context[OF h, of demo_parse demo_env assigning_handler "''MY_SECRET''"]
      accessors_outside_context[OF h, of demo_parse demo_env assigning_handler "''DB''"] h
    by (simp add: outside_context_def)
qed

text \<open>
  C7 as it is stated does not hold for \<open>requireSecret\<close>: called with no store bound, its
  error is the one of \<open>getSecret\<close> and does not name \<open>requireSecret\<close>.
\<close>

theorem requireSecret_error_names_getSecret:
  "envStore init_state = None
   \<and> requireSecret init_state ''API_KEY''
       = Inl (Error ''[secrets] getSecret() called outside of withSecrets() context'')
   \<and> requireSecret init_state ''API_KEY'' \<noteq> Inl (outside_context ''requireSecret'')"
  by (simp add: init_state_def requireSecret_def getSecret_def outside_context_def)

section \<open>The code at the name \<open>__proto__\<close>, at inherited names, and the object \<open>getEnv\<close> returns\<close>

lemmas eval_defs =
  withSecrets_def withSecrets_body_def envStore_run_def new_object_def js_read_def js_assign_def
  decrypt_def demo_parse_def plain_object_def nullish_coalesce_def startsWith_def
  init_state_def init_heap_def Object_prototype_def Object_prototype_members_def
  getEnv_def getSecret_def getBinding_def requireSecret_def Let_def eval_nat_numeral

text \<open>
  C1. The env \<open>{"__proto__": "plain", "A": "a"}\<close> has the two own names \<open>__proto__\<close> and
  \<open>A\<close>. The object that \<open>withSecrets\<close> binds for the handler has the one own name \<open>A\<close>:
  the assignment \<open>processedEnv["__proto__"] = "plain"\<close> ran the setter of
  \<open>Object.prototype\<close>, which ignores a string, and \<open>getSecret("__proto__")\<close> gives
  \<open>undefined\<close>.
\<close>

theorem withSecrets_drops_own_proto_name:
  "map fst (own (heap init_state proto_plain_env)) = [''__proto__'', ''A'']
   \<and> js_read init_state proto_plain_env ''__proto__'' = JStr ''plain''
   \<and> fst (withSecrets demo_parse proto_plain_env keys_handler init_state) = Inr [''A'']
   \<and> fst (withSecrets demo_parse proto_plain_env (\<lambda>s. (getSecret s ''__proto__'', s)) init_state)
       = Inr None"
  by (simp add: eval_defs proto_plain_env_def keys_handler_def)

text \<open>
  C2. The env \<open>{"__proto__": false, "DB": <binding>}\<close> has the non-string \<open>false\<close> under
  \<open>__proto__\<close>. The object that \<open>withSecrets\<close> binds has the one own name \<open>DB\<close>, and a
  handler that returns \<open>getBinding("__proto__")\<close> returns \<open>Object.prototype\<close>, not \<open>false\<close>.
\<close>

theorem withSecrets_loses_false_under_proto:
  "js_read init_state proto_false_env ''__proto__'' = JBool False
   \<and> fst (withSecrets demo_parse proto_false_env keys_handler init_state) = Inr [''DB'']
   \<and> fst (withSecrets demo_parse proto_false_env (\<lambda>s. (getBinding s ''__proto__'', s)) init_state)
       = Inr (JObj Object_prototype)
   \<and> fst (withSecrets demo_parse proto_false_env (\<lambda>s. (getBinding s ''DB'', s)) init_state)
       = Inr (JObj DB_handle)"
  by (simp add: eval_defs proto_false_env_def keys_handler_def DB_handle_def)

text \<open>
  C3. The env \<open>{"__proto__": "encrypted:abc"}\<close> has no private key and a marked string
  under \<open>__proto__\<close>. Nothing is given to \<open>dotenvx.parse\<close> and nothing is thrown, but the
  object that \<open>withSecrets\<close> binds has no own name, and \<open>getSecret("__proto__")\<close> gives
  \<open>undefined\<close>: the marked string is not stored.
\<close>

theorem withSecrets_loses_marked_string_under_proto:
  "js_read init_state proto_marked_env ''DOTENV_PRIVATE_KEY'' = JUndefined
   \<and> js_read init_state proto_marked_env ''__proto__'' = JStr ''encrypted:abc''
   \<and> fst (withSecrets demo_parse proto_marked_env keys_handler init_state) = Inr []
   \<and> fst (withSecrets demo_parse proto_marked_env (\<lambda>s. (getSecret s ''__proto__'', s)) init_state)
       = Inr None
   \<and> parseCalls (snd (withSecrets demo_parse proto_marked_env keys_handler init_state)) = []"
  by (simp add: eval_defs proto_marked_env_def keys_handler_def)

text \<open>
  C4. The env \<open>{"DOTENV_PRIVATE_KEY": "k1", "__proto__": "encrypted:bad"}\<close> has a private
  key, and \<open>decrypt\<close> throws for \<open>__proto__\<close>. The failure is caught and logged and the
  handler runs, but the assignment in the \<open>catch\<close> branch stores nothing: the bound
  object has the one own name \<open>DOTENV_PRIVATE_KEY\<close>, and \<open>getSecret("__proto__")\<close> gives
  \<open>undefined\<close>, not the original marked string.
\<close>

theorem withSecrets_catch_loses_string_under_proto:
  "truthy (js_read init_state proto_bad_env ''DOTENV_PRIVATE_KEY'')
   \<and> js_read init_state proto_bad_env ''__proto__'' = JStr ''encrypted:bad''
   \<and> fst (decrypt demo_parse ''__proto__'' ''encrypted:bad'' (JStr ''k1'') JUndefined init_state)
       = Inl (Error ''decryption failed'')
   \<and> fst (withSecrets demo_parse proto_bad_env keys_handler init_state)
       = Inr [''DOTENV_PRIVATE_KEY'']
   \<and> fst (withSecrets demo_parse proto_bad_env (\<lambda>s. (getSecret s ''__proto__'', s)) init_state)
       = Inr None
   \<and> console (snd (withSecrets demo_parse proto_bad_env keys_handler init_state))
       = [''[secrets] Failed to decrypt __proto__:'']"
  by (simp add: eval_defs proto_bad_env_def keys_handler_def)

text \<open>
  C5. With the env of the example, a handler that reads \<open>OTHER\<close> gets \<open>plain\<close>; a handler
  that first assigns to \<open>OTHER\<close> on the object returned by \<open>getEnv()\<close> and then reads
  \<open>OTHER\<close> with \<open>getSecret\<close> gets the assigned string: \<open>getEnv\<close> hands out the bound
  object itself, not a copy of it.
\<close>

theorem getEnv_assignment_seen_by_getSecret:
  "fst (withSecrets demo_parse demo_env (\<lambda>s. (getSecret s ''OTHER'', s)) init_state)
     = Inr (Some ''plain'')
   \<and> fst (withSecrets demo_parse demo_env assigning_handler init_state) = Inr (Some ''changed'')"
  by (simp add: eval_defs demo_env_def assigning_handler_def)


text \<open>
  C9. The env \<open>{"__proto__": {"INJECTED": "x"}}\<close> has the one own name \<open>__proto__\<close>. The
  assignment \<open>processedEnv["__proto__"] = {...}\<close> makes that object the prototype of the
  bound object, which has no own name. \<open>INJECTED\<close> is not a name of the env and not an own
  name of the bound object, and yet \<open>getSecret("INJECTED")\<close> and
  \<open>requireSecret("INJECTED")\<close> return \<open>x\<close>.
\<close>

theorem getSecret_returns_inherited_string:
  "map fst (own (heap init_state proto_object_env)) = [''__proto__'']
   \<and> fst (withSecrets demo_parse proto_object_env keys_handler init_state) = Inr []
   \<and> fst (withSecrets demo_parse proto_object_env (\<lambda>s. (getSecret s ''INJECTED'', s)) init_state)
       = Inr (Some ''x'')
   \<and> fst (withSecrets demo_parse proto_object_env (\<lambda>s. (requireSecret s ''INJECTED'', s)) init_state)
       = Inr ''x''"
  by (simp add: eval_defs proto_object_env_def keys_handler_def)

lemmas eval_decrypt_defs =
  lazy_lookup_def eager_lookup_def createDecryptProxy_def proxy_get_def decryptEnv_def
  decryptEnv_body_def decryptValue_def isEncrypted_def is_string.simps new_object_def js_read_def
  js_assign_def demo_parse_def plain_object_def nullish_coalesce_def startsWith_def
  init_state_def init_heap_def Object_prototype_def Object_prototype_members_def Let_def
  eval_nat_numeral

text \<open>
  C6. In the env of the example \<open>DOTENV_PRIVATE_KEY\<close> is a string and \<open>DB\<close> is a binding.
  The proxy of \<open>createDecryptProxy\<close> returns the binding; \<open>decryptEnv\<close> copies only strings,
  so its result has no \<open>DB\<close>.
\<close>

theorem proxy_returns_binding_decryptEnv_drops_it:
  "lazy_lookup demo_parse demo_env [] ''DB'' init_state = Inr (JObj DB_handle)
   \<and> eager_lookup demo_parse demo_env ''DB'' init_state = Inr JUndefined
   \<and> lazy_lookup demo_parse demo_env [] ''MY_SECRET'' init_state = Inr (JStr ''plaintext1'')
   \<and> eager_lookup demo_parse demo_env ''MY_SECRET'' init_state = Inr (JStr ''plaintext1'')"
  by (simp add: eval_decrypt_defs demo_env_def DB_handle_def)

end
